theory Spec2Isabelle
  imports Main "HOL-Library.Word"
begin

section \<open>The relay firmware: constants, globals and environment\<close>

text \<open>
  The sketch keeps its whole state in global variables and is driven by the Arduino
  runtime calling \<open>loop()\<close> again and again. The model below passes the globals
  around as one record and lists, in a trace, every call the sketch makes on the relay
  pin, the status LED, the MQTT client and the chip. Diagnostics written to
  \<open>Serial\<close> are not part of the trace.

  \<open>unsigned long\<close> is 32 bits wide on the ESP8266, so the two timestamps and every
  reading of \<open>millis()\<close> are 32-bit words and their differences wrap around.
  The \<open>int\<close> variables \<open>state\<close> and \<open>needAction\<close> only ever hold the values
  \<open>-2\<close>, \<open>-1\<close>, \<open>0\<close>, \<open>1\<close> (shown below for every reachable state), and the
  other two are never computed with, so all four are modelled by mathematical integers.

  Messages reach \<open>mqttMessageReceived\<close> from \<open>mqttClient.loop()\<close>, at the start
  of a pass through \<open>loop()\<close>.
\<close>

type_synonym millis = "32 word"

abbreviation HIGH :: int where "HIGH \<equiv> 1"
abbreviation LOW :: int where "LOW \<equiv> 0"
abbreviation NO_ACTION :: int where "NO_ACTION \<equiv> - 1"
abbreviation FLASH_ACTION :: int where "FLASH_ACTION \<equiv> - 2"

definition MQTT_TOPIC_PREFIX :: string where
  "MQTT_TOPIC_PREFIX = ''devices/''"

definition MQTT_CONNECT_FREQ_LIMIT :: millis where
  "MQTT_CONNECT_FREQ_LIMIT = 2000"

definition ACTION_FREQ_LIMIT :: millis where
  "ACTION_FREQ_LIMIT = 7000"

definition STRING_LEN :: nat where
  "STRING_LEN = 128"

text \<open>
  Calls on the outside world, in the order the sketch makes them. \<open>ConnectAttempt\<close>
  marks the body of the reconnect branch of \<open>loop()\<close> and carries the clock reading
  \<open>now\<close> that the branch has just stored in \<open>lastMqttConnectionAttempt\<close>;
  \<open>MqttConnect\<close> is the call of \<open>mqttClient.connect\<close> with its result.
  \<open>Publish\<close> lists topic, payload, retained flag and QoS.
\<close>

datatype event =
    DigitalWrite int
  | Blink nat nat
  | StopCustomBlink
  | Delay int
  | ConnectAttempt millis
  | MqttConnect bool
  | Subscribe string
  | Publish string string bool int
  | Restart

record prog =
  needMqttConnect :: bool
  needReset :: bool
  lastMqttConnectionAttempt :: millis
  needAction :: int
  state :: int
  flashDuration :: int
  lastAction :: millis
  mqttActionTopic :: string
  mqttStatusTopic :: string
  mqttRetain :: bool
  mqttQoS :: int
  out :: "event list"

text \<open>
  What \<open>setup()\<close> reads from the configuration portal: the thing name and the
  values \<open>atoi\<close> and \<open>strcmp\<close> extract from the stored parameter strings.
\<close>

record config =
  thingName :: string
  cfgFlashDuration :: int
  cfgRetain :: bool
  cfgQoS :: int

text \<open>
  What one pass through \<open>loop()\<close> learns from its environment: which callbacks
  \<open>iotWebConf.doLoop()\<close> fires, which messages \<open>mqttClient.loop()\<close> hands to
  \<open>mqttMessageReceived\<close>, the two readings of \<open>millis()\<close>, the network and
  client status, the result of \<open>mqttClient.connect\<close>, the local IP address as text
  and the level of the button pin.
\<close>

record loop_in =
  wifiConnectedCb :: bool
  configSavedCb :: bool
  messages :: "(string \<times> string) list"
  now1 :: millis
  online :: bool
  connected :: bool
  connectOk :: bool
  localIP :: string
  now2 :: millis
  buttonLow :: bool

section \<open>Text helpers\<close>

text \<open>\<open>String::endsWith\<close> of the Arduino core.\<close>

definition endsWith :: "string \<Rightarrow> string \<Rightarrow> bool" where
  "endsWith t suf =
     (if length t < length suf then False
      else drop (length t - length suf) t = suf)"

text \<open>The \<open>%d\<close> conversion of \<open>snprintf\<close>.\<close>

definition digit_char :: "nat \<Rightarrow> char" where
  "digit_char d = ''0123456789'' ! d"

fun show_nat :: "nat \<Rightarrow> string" where
  "show_nat n =
     (if n < 10 then [digit_char n]
      else show_nat (n div 10) @ [digit_char (n mod 10)])"

definition show_int :: "int \<Rightarrow> string" where
  "show_int i = (if i < 0 then CHR ''-'' # show_nat (nat (- i)) else show_nat (nat i))"

text \<open>
  The greeting \<open>connectMqtt\<close> formats into its 128-byte buffer; \<open>snprintf\<close> keeps
  at most 127 characters.
\<close>

definition hello :: "string \<Rightarrow> int \<Rightarrow> int \<Rightarrow> bool \<Rightarrow> string" where
  "hello ip fd qos retain =
     take (STRING_LEN - 1)
       (''HELLO ip='' @ ip @ '' flash='' @ show_int fd @ '' QoS='' @ show_int qos
          @ '' retain='' @ (if retain then ''true'' else ''false''))"

section \<open>The sketch\<close>

definition emit :: "event \<Rightarrow> prog \<Rightarrow> prog" where
  "emit e s = s\<lparr>out := out s @ [e]\<rparr>"

text \<open>
  \<open>setup()\<close>: the initial values of the globals and the two topic names, each cut
  to the size of its buffer by \<open>toCharArray\<close>.
\<close>

definition setup_prog :: "config \<Rightarrow> prog" where
  "setup_prog c =
     \<lparr> needMqttConnect = False,
       needReset = False,
       lastMqttConnectionAttempt = 0,
       needAction = NO_ACTION,
       state = LOW,
       flashDuration = cfgFlashDuration c,
       lastAction = 0,
       mqttActionTopic = take (STRING_LEN - 1) (MQTT_TOPIC_PREFIX @ thingName c @ ''/action''),
       mqttStatusTopic = take (STRING_LEN - 1) (MQTT_TOPIC_PREFIX @ thingName c @ ''/status''),
       mqttRetain = cfgRetain c,
       mqttQoS = cfgQoS c,
       out = [] \<rparr>"

definition report :: "prog \<Rightarrow> prog" where
  "report s =
     emit (Publish (mqttStatusTopic s) (if state s = HIGH then ''ON'' else ''OFF'')
             (mqttRetain s) (mqttQoS s)) s"

definition setState :: "int \<Rightarrow> prog \<Rightarrow> prog" where
  "setState newState s =
     (let s1 = s\<lparr>state := newState\<rparr>;
          s2 = emit (DigitalWrite (state s1)) s1;
          s3 = (if state s2 = HIGH then emit (Blink 5000 95) s2 else emit StopCustomBlink s2);
          s4 = s3\<lparr>needAction := NO_ACTION\<rparr>
      in report s4)"

definition wifiConnected :: "prog \<Rightarrow> prog" where
  "wifiConnected s = s\<lparr>needMqttConnect := True\<rparr>"

definition configSaved :: "prog \<Rightarrow> prog" where
  "configSaved s = s\<lparr>needReset := True\<rparr>"

text \<open>
  \<open>connectMqtt()\<close>, given the result of \<open>mqttClient.connect\<close> and the text of
  \<open>WiFi.localIP()\<close>. The greeting is published with the client's default flags
  (not retained, QoS 0).
\<close>

definition connectMqtt :: "bool \<Rightarrow> string \<Rightarrow> prog \<Rightarrow> bool \<times> prog" where
  "connectMqtt ok ip s =
     (if \<not> ok then (False, emit (MqttConnect False) s)
      else
        let s1 = emit (MqttConnect True) s;
            s2 = emit (Subscribe (mqttActionTopic s1)) s1;
            s3 = emit (Publish (mqttStatusTopic s2)
                         (hello ip (flashDuration s2) (mqttQoS s2) (mqttRetain s2)) False 0) s2
        in (True, report s3))"

definition mqttMessageReceived :: "string \<Rightarrow> string \<Rightarrow> prog \<Rightarrow> prog" where
  "mqttMessageReceived topic payload s =
     (if endsWith topic ''action'' then
        let s1 =
              (if payload = ''ON'' then s\<lparr>needAction := HIGH\<rparr>
               else if payload = ''OFF'' then s\<lparr>needAction := LOW\<rparr>
               else if payload = ''TOGGLE'' then s\<lparr>needAction := 1 - state s\<rparr>
               else if payload = ''FLASH'' then s\<lparr>needAction := FLASH_ACTION\<rparr>
               else if payload = ''REPORT'' then report s
               else s)
        in if needAction s1 = state s1 then s1\<lparr>needAction := NO_ACTION\<rparr> else s1
      else s)"

subsection \<open>The parts of \<open>loop()\<close>\<close>

text \<open>The callbacks \<open>iotWebConf.doLoop()\<close> may fire.\<close>

definition doLoop :: "loop_in \<Rightarrow> prog \<Rightarrow> prog" where
  "doLoop i s =
     (let s1 = (if wifiConnectedCb i then wifiConnected s else s)
      in if configSavedCb i then configSaved s1 else s1)"

text \<open>\<open>mqttClient.loop()\<close> hands each received message to the handler, in order.\<close>

fun deliver :: "(string \<times> string) list \<Rightarrow> prog \<Rightarrow> prog" where
  "deliver [] s = s"
| "deliver ((topic, payload) # ms) s = deliver ms (mqttMessageReceived topic payload s)"

text \<open>The rate-limited reconnect.\<close>

definition loop_connect :: "loop_in \<Rightarrow> prog \<Rightarrow> prog" where
  "loop_connect i s =
     (let now = now1 i in
      if (needMqttConnect s \<or> (online i \<and> \<not> connected i))
         \<and> MQTT_CONNECT_FREQ_LIMIT < now - lastMqttConnectionAttempt s
      then
        let s1 = s\<lparr>lastMqttConnectionAttempt := now\<rparr>;
            s2 = emit (ConnectAttempt now) s1;
            (ok, s3) = connectMqtt (connectOk i) (localIP i) s2
        in if ok then s3\<lparr>needMqttConnect := False\<rparr> else s3
      else s)"

text \<open>
  The button is compiled in only when \<open>BUTTON_PIN\<close> is defined; \<open>btn\<close> says
  whether it is.
\<close>

definition loop_button :: "bool \<Rightarrow> loop_in \<Rightarrow> prog \<Rightarrow> prog" where
  "loop_button btn i s =
     (if btn \<and> buttonLow i \<and> ACTION_FREQ_LIMIT < now2 i - lastAction s
      then s\<lparr>needAction := 1 - state s\<rparr>
      else s)"

text \<open>The commit of the pending action, the last statement of \<open>loop()\<close>.\<close>

definition loop_action :: "millis \<Rightarrow> prog \<Rightarrow> prog" where
  "loop_action now s =
     (if needAction s \<noteq> NO_ACTION \<and> ACTION_FREQ_LIMIT < now - lastAction s
      then
        let s1 =
              (if needAction s \<ge> 0 then setState (needAction s) s
               else if needAction s = FLASH_ACTION then
                 let a = setState HIGH s;
                     b = emit (Delay (flashDuration a)) a
                 in setState LOW b
               else s)
        in s1\<lparr>lastAction := now\<rparr>
      else s)"

text \<open>
  Everything \<open>loop()\<close> does before the commit. A pending reset ends the run: the
  result is \<open>Inl\<close> of the state in which \<open>ESP.restart()\<close> is called.
\<close>

definition loop_pre :: "bool \<Rightarrow> loop_in \<Rightarrow> prog \<Rightarrow> prog + prog" where
  "loop_pre btn i s =
     (let s1 = doLoop i s;
          s2 = deliver (messages i) s1;
          s3 = loop_connect i s2
      in if needReset s3 then Inl (emit Restart (emit (Delay 1000) s3))
         else Inr (loop_button btn i s3))"

definition loop :: "bool \<Rightarrow> loop_in \<Rightarrow> prog \<Rightarrow> prog + prog" where
  "loop btn i s =
     (case loop_pre btn i s of
        Inl r \<Rightarrow> Inl r
      | Inr p \<Rightarrow> Inr (loop_action (now2 i) p))"

text \<open>Successive passes through \<open>loop()\<close>, until the inputs end or the chip restarts.\<close>

fun run :: "bool \<Rightarrow> loop_in list \<Rightarrow> prog \<Rightarrow> prog + prog" where
  "run btn [] s = Inr s"
| "run btn (i # is) s =
     (case loop btn i s of
        Inl r \<Rightarrow> Inl r
      | Inr s' \<Rightarrow> run btn is s')"

section \<open>Reachable states and what is read off a trace\<close>

text \<open>
  The states the sketch passes through: after \<open>setup()\<close>, after a callback
  (\<open>wifiConnected\<close>, \<open>configSaved\<close>, \<open>mqttMessageReceived\<close>), just before
  the commit of a pass through \<open>loop()\<close>, and at the end of a pass.
\<close>

inductive reachable :: "prog \<Rightarrow> bool" where
  boot: "reachable (setup_prog c)"
| wifi: "reachable s \<Longrightarrow> reachable (wifiConnected s)"
| saved: "reachable s \<Longrightarrow> reachable (configSaved s)"
| message: "reachable s \<Longrightarrow> reachable (mqttMessageReceived topic payload s)"
| pre: "reachable s \<Longrightarrow> loop_pre btn i s = Inr p \<Longrightarrow> reachable p"
| tick: "reachable s \<Longrightarrow> loop btn i s = Inr s' \<Longrightarrow> reachable s'"

text \<open>
  The values the two \<open>int\<close> globals take, and the relation between the pending
  action and the relay state.
\<close>

definition prog_inv :: "prog \<Rightarrow> bool" where
  "prog_inv s =
     ((state s = LOW \<or> state s = HIGH)
      \<and> (needAction s = FLASH_ACTION \<or> needAction s = NO_ACTION
           \<or> needAction s = LOW \<or> needAction s = HIGH)
      \<and> needAction s \<noteq> state s)"

text \<open>The state a run ends in, whether the chip restarted or not.\<close>

definition final :: "prog + prog \<Rightarrow> prog" where
  "final r = (case r of Inl s \<Rightarrow> s | Inr s \<Rightarrow> s)"

text \<open>The payloads published on a topic, in order.\<close>

fun payloads :: "string \<Rightarrow> event list \<Rightarrow> string list" where
  "payloads tp [] = []"
| "payloads tp (Publish t p r q # es) = (if t = tp then p # payloads tp es else payloads tp es)"
| "payloads tp (e # es) = payloads tp es"

text \<open>The level of the relay pin after a trace, starting from level \<open>st\<close>.\<close>

fun pin_after :: "int \<Rightarrow> event list \<Rightarrow> int" where
  "pin_after st [] = st"
| "pin_after st (DigitalWrite v # es) = pin_after v es"
| "pin_after st (e # es) = pin_after st es"

text \<open>
  A payload is a greeting when it starts as the format string of \<open>connectMqtt\<close> does.
  \<open>status_ok tp st es\<close> replays the trace \<open>es\<close> from pin level \<open>st\<close> and checks
  that every message published on topic \<open>tp\<close> is a greeting or names the level the
  relay pin has at that moment.
\<close>

definition is_hello :: "string \<Rightarrow> bool" where
  "is_hello p = (take 9 p = ''HELLO ip='')"

fun status_ok :: "string \<Rightarrow> int \<Rightarrow> event list \<Rightarrow> bool" where
  "status_ok tp st [] = True"
| "status_ok tp st (DigitalWrite v # es) = status_ok tp v es"
| "status_ok tp st (Publish t p r q # es) =
     ((if t = tp then is_hello p \<or> p = (if st = HIGH then ''ON'' else ''OFF'') else True)
      \<and> status_ok tp st es)"
| "status_ok tp st (e # es) = status_ok tp st es"

text \<open>
  A program state whose trace, replayed from the pin level at boot, passes that check
  and ends at the level the variable \<open>state\<close> holds.
\<close>

definition trace_ok :: "prog \<Rightarrow> bool" where
  "trace_ok s =
     (status_ok (mqttStatusTopic s) LOW (out s) \<and> pin_after LOW (out s) = state s)"

text \<open>The clock readings of the connect attempts of a trace, in order.\<close>

fun connect_times :: "event list \<Rightarrow> millis list" where
  "connect_times [] = []"
| "connect_times (ConnectAttempt t # es) = t # connect_times es"
| "connect_times (e # es) = connect_times es"

text \<open>
  Neighbouring readings lie at least \<open>MQTT_CONNECT_FREQ_LIMIT\<close> apart, the
  difference taken as the sketch takes it, in 32-bit unsigned arithmetic.
\<close>

fun spaced :: "millis list \<Rightarrow> bool" where
  "spaced (a # b # ts) = (MQTT_CONNECT_FREQ_LIMIT \<le> b - a \<and> spaced (b # ts))"
| "spaced ts = True"

text \<open>The events of the reconnect branch that stand for a connect attempt.\<close>

fun is_connect :: "event \<Rightarrow> bool" where
  "is_connect (ConnectAttempt t) = True"
| "is_connect (MqttConnect ok) = True"
| "is_connect e = False"

text \<open>
  \<open>conn_frame s t\<close>: going from \<open>s\<close> to \<open>t\<close> neither attempts a connect nor
  touches the timestamp of the last attempt.
\<close>

definition conn_frame :: "prog \<Rightarrow> prog \<Rightarrow> bool" where
  "conn_frame s t =
     (filter is_connect (out t) = filter is_connect (out s)
      \<and> lastMqttConnectionAttempt t = lastMqttConnectionAttempt s)"

text \<open>
  The attempts of the trace are spaced, and the timestamp holds the clock reading of
  the latest one.
\<close>

definition attempts_ok :: "prog \<Rightarrow> bool" where
  "attempts_ok s =
     (spaced (connect_times (out s))
      \<and> (connect_times (out s) = []
           \<or> last (connect_times (out s)) = lastMqttConnectionAttempt s))"

subsection \<open>Sample inputs\<close>

definition demo_cfg :: config where
  "demo_cfg = \<lparr> thingName = ''relay'', cfgFlashDuration = 1000, cfgRetain = True, cfgQoS = 1 \<rparr>"

text \<open>A pass at clock reading \<open>t\<close> with an established session that delivers \<open>ms\<close>.\<close>

definition msg_tick :: "millis \<Rightarrow> (string \<times> string) list \<Rightarrow> loop_in" where
  "msg_tick t ms =
     \<lparr> wifiConnectedCb = False, configSavedCb = False, messages = ms, now1 = t,
       online = True, connected = True, connectOk = False, localIP = ''192.168.1.50'',
       now2 = t, buttonLow = False \<rparr>"

text \<open>
  A pass at clock reading \<open>t\<close> with the network up and no session; \<open>cb\<close> says
  whether \<open>wifiConnected\<close> fires and \<open>ok\<close> whether the broker accepts.
\<close>

definition conn_tick :: "millis \<Rightarrow> bool \<Rightarrow> bool \<Rightarrow> loop_in" where
  "conn_tick t cb ok =
     \<lparr> wifiConnectedCb = cb, configSavedCb = False, messages = [], now1 = t,
       online = True, connected = False, connectOk = ok, localIP = ''192.168.1.50'',
       now2 = t, buttonLow = False \<rparr>"

section \<open>Properties\<close>

declare show_nat.simps [simp del]

subsection \<open>The invariant of the pending action\<close>

lemma inv_setup_prog: "prog_inv (setup_prog c)"
  by (simp add: prog_inv_def setup_prog_def)

lemma inv_wifiConnected: "prog_inv s \<Longrightarrow> prog_inv (wifiConnected s)"
  by (simp add: prog_inv_def wifiConnected_def)

lemma inv_configSaved: "prog_inv s \<Longrightarrow> prog_inv (configSaved s)"
  by (simp add: prog_inv_def configSaved_def)

lemma inv_mqttMessageReceived: "prog_inv s \<Longrightarrow> prog_inv (mqttMessageReceived topic payload s)"
  by (auto simp add: prog_inv_def mqttMessageReceived_def report_def emit_def Let_def)

lemma inv_doLoop: "prog_inv s \<Longrightarrow> prog_inv (doLoop i s)"
  by (simp add: doLoop_def Let_def inv_wifiConnected inv_configSaved)

lemma inv_deliver: "prog_inv s \<Longrightarrow> prog_inv (deliver ms s)"
  by (induction ms s rule: deliver.induct) (simp_all add: inv_mqttMessageReceived)

lemma inv_loop_connect: "prog_inv s \<Longrightarrow> prog_inv (loop_connect i s)"
  by (auto simp add: prog_inv_def loop_connect_def connectMqtt_def report_def emit_def Let_def)

lemma inv_loop_button: "prog_inv s \<Longrightarrow> prog_inv (loop_button btn i s)"
  by (auto simp add: prog_inv_def loop_button_def) presburger+

lemma inv_loop_action: "prog_inv s \<Longrightarrow> prog_inv (loop_action now s)"
  by (auto simp add: prog_inv_def loop_action_def setState_def report_def emit_def Let_def)

lemma inv_loop_pre: "prog_inv s \<Longrightarrow> loop_pre btn i s = Inr p \<Longrightarrow> prog_inv p"
  by (auto simp add: loop_pre_def Let_def inv_doLoop inv_deliver inv_loop_connect
      inv_loop_button split: if_splits)

lemma inv_loop: "prog_inv s \<Longrightarrow> loop btn i s = Inr s' \<Longrightarrow> prog_inv s'"
  by (auto simp add: loop_def inv_loop_action dest: inv_loop_pre split: sum.splits)

lemma reachable_inv: "reachable s \<Longrightarrow> prog_inv s"
  by (induction rule: reachable.induct)
     (auto intro: inv_setup_prog inv_wifiConnected inv_configSaved inv_mqttMessageReceived
        inv_loop_pre inv_loop)

lemma endsWith_demo_action: "endsWith ''devices/relay/action'' ''action''"
  by (simp add: endsWith_def)

lemma payloads_snoc_publish: "payloads tp (es @ [Publish tp p r q]) = payloads tp es @ [p]"
  by (induction tp es rule: payloads.induct) simp_all

text \<open>
  C9: whenever the pending-action slot holds an ON or OFF target, the target differs
  from the relay state. This holds in every reachable state (first conjunct). Both
  producers establish it: the message handler on the action topic (second conjunct)
  and the button sampling of \<open>loop()\<close> when it fires (third conjunct). Every commit
  re-establishes it by clearing the slot: \<open>setState\<close> always leaves \<open>NO_ACTION\<close>
  (fourth conjunct), and so does the commit step of \<open>loop()\<close> once the window is
  open (fifth conjunct).
\<close>

theorem pending_target_differs_from_state:
  "(reachable s \<longrightarrow>
      needAction s \<noteq> state s \<and> (state s = LOW \<or> state s = HIGH))
   \<and> ((state s = LOW \<or> state s = HIGH) \<and> endsWith topic ''action'' \<longrightarrow>
        needAction (mqttMessageReceived topic payload s)
          \<noteq> state (mqttMessageReceived topic payload s))
   \<and> (btn \<and> buttonLow i \<and> ACTION_FREQ_LIMIT < now2 i - lastAction s \<longrightarrow>
        needAction (loop_button btn i s) \<noteq> state (loop_button btn i s))
   \<and> needAction (setState v s) = NO_ACTION
   \<and> (prog_inv s \<and> needAction s \<noteq> NO_ACTION \<and> ACTION_FREQ_LIMIT < now - lastAction s \<longrightarrow>
        needAction (loop_action now s) = NO_ACTION)"
proof (intro conjI impI)
  assume "reachable s"
  then have "prog_inv s" by (rule reachable_inv)
  then show "needAction s \<noteq> state s" and "state s = LOW \<or> state s = HIGH"
    by (simp_all add: prog_inv_def)
next
  assume "(state s = LOW \<or> state s = HIGH) \<and> endsWith topic ''action''"
  then show "needAction (mqttMessageReceived topic payload s)
               \<noteq> state (mqttMessageReceived topic payload s)"
    by (auto simp add: mqttMessageReceived_def report_def emit_def Let_def)
next
  assume "btn \<and> buttonLow i \<and> ACTION_FREQ_LIMIT < now2 i - lastAction s"
  then have "needAction (loop_button btn i s) = 1 - state s"
    and "state (loop_button btn i s) = state s"
    by (simp_all add: loop_button_def)
  then show "needAction (loop_button btn i s) \<noteq> state (loop_button btn i s)"
    by presburger
next
  show "needAction (setState v s) = NO_ACTION"
    by (simp add: setState_def report_def emit_def Let_def)
next
  assume "prog_inv s \<and> needAction s \<noteq> NO_ACTION \<and> ACTION_FREQ_LIMIT < now - lastAction s"
  then show "needAction (loop_action now s) = NO_ACTION"
    by (auto simp add: prog_inv_def loop_action_def setState_def report_def emit_def Let_def)
qed

theorem pending_target_differs_from_state_witness:
  "needAction (mqttMessageReceived ''devices/relay/action'' ''ON'' (setup_prog demo_cfg)) = HIGH
   \<and> state (mqttMessageReceived ''devices/relay/action'' ''ON'' (setup_prog demo_cfg)) = LOW
   \<and> needAction (mqttMessageReceived ''devices/relay/action'' ''OFF''
        (mqttMessageReceived ''devices/relay/action'' ''ON'' (setup_prog demo_cfg))) = NO_ACTION
   \<and> needAction (loop_button True (msg_tick 9000 [] \<lparr>buttonLow := True\<rparr>)
        (mqttMessageReceived ''devices/relay/action'' ''ON'' (setup_prog demo_cfg))) = HIGH
   \<and> needAction (loop_action 9000
        (mqttMessageReceived ''devices/relay/action'' ''ON'' (setup_prog demo_cfg))) = NO_ACTION"
  using pending_target_differs_from_state
          [of "mqttMessageReceived ''devices/relay/action'' ''ON'' (setup_prog demo_cfg)"
              "''devices/relay/action''" "''OFF''" True "msg_tick 9000 [] \<lparr>buttonLow := True\<rparr>"
              HIGH 9000]
        reachable.message [OF reachable.boot, of "''devices/relay/action''" "''ON''" demo_cfg]
  by (simp add: mqttMessageReceived_def endsWith_def setup_prog_def demo_cfg_def msg_tick_def
        loop_button_def loop_action_def setState_def report_def emit_def Let_def
        ACTION_FREQ_LIMIT_def prog_inv_def)

text \<open>
  C4: in every reachable state, a \<open>REPORT\<close> payload on the action topic makes the
  handler publish exactly one message on the status topic, naming the relay state, and
  change nothing else: relay state, pending action and last-commit timestamp stay as
  they are, so the debounce window is not consumed.
\<close>

theorem report_command_publishes_once:
  assumes "reachable s" and "endsWith topic ''action''"
  shows "mqttMessageReceived topic ''REPORT'' s =
           s\<lparr>out := out s @ [Publish (mqttStatusTopic s)
                                (if state s = HIGH then ''ON'' else ''OFF'')
                                (mqttRetain s) (mqttQoS s)]\<rparr>
         \<and> state (mqttMessageReceived topic ''REPORT'' s) = state s
         \<and> needAction (mqttMessageReceived topic ''REPORT'' s) = needAction s
         \<and> lastAction (mqttMessageReceived topic ''REPORT'' s) = lastAction s
         \<and> payloads (mqttStatusTopic s) (out (mqttMessageReceived topic ''REPORT'' s)) =
             payloads (mqttStatusTopic s) (out s) @ [if state s = HIGH then ''ON'' else ''OFF'']"
proof -
  from assms(1) have "needAction s \<noteq> state s"
    using reachable_inv by (simp add: prog_inv_def)
  with assms(2) have eq: "mqttMessageReceived topic ''REPORT'' s =
           s\<lparr>out := out s @ [Publish (mqttStatusTopic s)
                                (if state s = HIGH then ''ON'' else ''OFF'')
                                (mqttRetain s) (mqttQoS s)]\<rparr>"
    by (simp add: mqttMessageReceived_def report_def emit_def Let_def)
  show ?thesis
    unfolding eq by (simp add: payloads_snoc_publish)
qed

theorem report_command_publishes_once_witness:
  "mqttMessageReceived ''devices/relay/action'' ''REPORT'' (setup_prog demo_cfg) =
     (setup_prog demo_cfg)\<lparr>out := [Publish ''devices/relay/status'' ''OFF'' True 1]\<rparr>
   \<and> needAction (mqttMessageReceived ''devices/relay/action'' ''REPORT'' (setup_prog demo_cfg))
       = NO_ACTION
   \<and> lastAction (mqttMessageReceived ''devices/relay/action'' ''REPORT'' (setup_prog demo_cfg))
       = 0"
  using report_command_publishes_once [OF reachable.boot [of demo_cfg] endsWith_demo_action]
  by (simp add: setup_prog_def demo_cfg_def MQTT_TOPIC_PREFIX_def STRING_LEN_def)

text \<open>
  C6: an \<open>ON\<close> received while the relay is on, or an \<open>OFF\<close> received while it is
  off, is discarded: the handler only resets the pending-action slot to
  \<open>NO_ACTION\<close>, so relay state, trace (no publish) and last-commit timestamp are
  unchanged, and the commit step that follows does nothing at any clock reading.
\<close>

theorem redundant_command_is_noop:
  assumes "endsWith topic ''action''"
    and "(payload = ''ON'' \<and> state s = HIGH) \<or> (payload = ''OFF'' \<and> state s = LOW)"
  shows "mqttMessageReceived topic payload s = s\<lparr>needAction := NO_ACTION\<rparr>
         \<and> state (mqttMessageReceived topic payload s) = state s
         \<and> out (mqttMessageReceived topic payload s) = out s
         \<and> lastAction (mqttMessageReceived topic payload s) = lastAction s
         \<and> loop_action now (mqttMessageReceived topic payload s)
             = mqttMessageReceived topic payload s"
proof -
  from assms have eq: "mqttMessageReceived topic payload s = s\<lparr>needAction := NO_ACTION\<rparr>"
    by (auto simp add: mqttMessageReceived_def Let_def)
  show ?thesis
    unfolding eq by (simp add: loop_action_def)
qed

theorem redundant_command_is_noop_witness:
  "state (setup_prog demo_cfg) = LOW
   \<and> mqttMessageReceived ''devices/relay/action'' ''OFF'' (setup_prog demo_cfg)
       = setup_prog demo_cfg
   \<and> loop_action 9000 (mqttMessageReceived ''devices/relay/action'' ''OFF'' (setup_prog demo_cfg))
       = setup_prog demo_cfg"
proof -
  have st: "state (setup_prog demo_cfg) = LOW"
    by (simp add: setup_prog_def)
  have same: "(setup_prog demo_cfg)\<lparr>needAction := NO_ACTION\<rparr> = setup_prog demo_cfg"
    by (simp add: setup_prog_def)
  have "(''OFF'' = ''ON'' \<and> state (setup_prog demo_cfg) = HIGH)
        \<or> (''OFF'' = ''OFF'' \<and> state (setup_prog demo_cfg) = LOW)"
    using st by simp
  from redundant_command_is_noop [OF endsWith_demo_action this, of 9000]
  have a: "mqttMessageReceived ''devices/relay/action'' ''OFF'' (setup_prog demo_cfg)
             = setup_prog demo_cfg"
    and b: "loop_action 9000
              (mqttMessageReceived ''devices/relay/action'' ''OFF'' (setup_prog demo_cfg))
             = mqttMessageReceived ''devices/relay/action'' ''OFF'' (setup_prog demo_cfg)"
    unfolding same by blast+
  from b show ?thesis
    unfolding a using st by simp
qed

text \<open>
  C7: in every reachable state, a message whose payload is none of \<open>ON\<close>,
  \<open>OFF\<close>, \<open>TOGGLE\<close>, \<open>FLASH\<close>, \<open>REPORT\<close> (compared byte for byte) leaves the
  whole program state as it is, whatever the topic: relay state, pending action,
  last-commit timestamp and trace are unchanged, and the handler returns normally.
\<close>

theorem unknown_payload_is_ignored:
  assumes "reachable s"
    and "payload \<notin> {''ON'', ''OFF'', ''TOGGLE'', ''FLASH'', ''REPORT''}"
  shows "mqttMessageReceived topic payload s = s"
proof -
  from assms(1) have "needAction s \<noteq> state s"
    using reachable_inv by (simp add: prog_inv_def)
  with assms(2) show ?thesis
    by (simp add: mqttMessageReceived_def Let_def)
qed

theorem unknown_payload_is_ignored_witness:
  "''on'' \<notin> {''ON'', ''OFF'', ''TOGGLE'', ''FLASH'', ''REPORT''}
   \<and> mqttMessageReceived ''devices/relay/action'' ''on''
        (mqttMessageReceived ''devices/relay/action'' ''ON'' (setup_prog demo_cfg))
       = mqttMessageReceived ''devices/relay/action'' ''ON'' (setup_prog demo_cfg)"
  using unknown_payload_is_ignored
          [OF reachable.message [OF reachable.boot, of "''devices/relay/action''" "''ON''" demo_cfg],
           of "''on''" "''devices/relay/action''"]
  by simp

subsection \<open>The commit step\<close>

lemmas demo_defs =
  setup_prog_def demo_cfg_def msg_tick_def conn_tick_def MQTT_TOPIC_PREFIX_def STRING_LEN_def
  ACTION_FREQ_LIMIT_def MQTT_CONNECT_FREQ_LIMIT_def

lemmas sketch_defs =
  loop_def loop_pre_def doLoop_def wifiConnected_def configSaved_def loop_connect_def
  connectMqtt_def loop_button_def loop_action_def mqttMessageReceived_def endsWith_def
  setState_def report_def emit_def final_def Let_def

lemma loop_of_loop_pre: "loop_pre btn i s = Inr p \<Longrightarrow> loop btn i s = Inr (loop_action (now2 i) p)"
  by (simp add: loop_def)

lemma flash_commit:
  assumes "needAction p = FLASH_ACTION" and "ACTION_FREQ_LIMIT < now - lastAction p"
  shows "loop_action now p =
           p\<lparr>state := LOW, needAction := NO_ACTION, lastAction := now,
              out := out p @
                [DigitalWrite HIGH, Blink 5000 95,
                 Publish (mqttStatusTopic p) ''ON'' (mqttRetain p) (mqttQoS p),
                 Delay (flashDuration p),
                 DigitalWrite LOW, StopCustomBlink,
                 Publish (mqttStatusTopic p) ''OFF'' (mqttRetain p) (mqttQoS p)]\<rparr>"
  using assms by (simp add: loop_action_def setState_def report_def emit_def Let_def)

lemma set_commit:
  assumes "needAction p = LOW \<or> needAction p = HIGH"
    and "ACTION_FREQ_LIMIT < now - lastAction p"
  shows "loop_action now p =
           p\<lparr>state := needAction p, needAction := NO_ACTION, lastAction := now,
              out := out p @
                [DigitalWrite (needAction p),
                 if needAction p = HIGH then Blink 5000 95 else StopCustomBlink,
                 Publish (mqttStatusTopic p) (if needAction p = HIGH then ''ON'' else ''OFF'')
                   (mqttRetain p) (mqttQoS p)]\<rparr>"
  using assms by (auto simp add: loop_action_def setState_def report_def emit_def Let_def)

lemma no_commit:
  assumes "\<not> ACTION_FREQ_LIMIT < now - lastAction p"
  shows "loop_action now p = p"
  using assms by (simp add: loop_action_def)

lemma payloads_append: "payloads tp (xs @ ys) = payloads tp xs @ payloads tp ys"
  by (induction tp xs rule: payloads.induct) simp_all

text \<open>
  C1, as the sketch has it: when a pass through \<open>loop()\<close> commits a pending
  \<open>FLASH\<close>, the relay state is OFF afterwards whatever it was before, and two status
  reports are published, \<open>ON\<close> and then \<open>OFF\<close>, with the configured delay between
  the two pin writes. So the relay state is back at its pre-pulse value, and the last
  report carries that value, exactly when the pre-pulse value was OFF.
\<close>

theorem flash_pulse_ends_off:
  assumes "loop_pre btn i s = Inr p"
    and "needAction p = FLASH_ACTION"
    and "ACTION_FREQ_LIMIT < now2 i - lastAction p"
  shows "loop btn i s =
           Inr (p\<lparr>state := LOW, needAction := NO_ACTION, lastAction := now2 i,
                  out := out p @
                    [DigitalWrite HIGH, Blink 5000 95,
                     Publish (mqttStatusTopic p) ''ON'' (mqttRetain p) (mqttQoS p),
                     Delay (flashDuration p),
                     DigitalWrite LOW, StopCustomBlink,
                     Publish (mqttStatusTopic p) ''OFF'' (mqttRetain p) (mqttQoS p)]\<rparr>)
         \<and> state (final (loop btn i s)) = LOW
         \<and> (state (final (loop btn i s)) = state p) = (state p = LOW)
         \<and> payloads (mqttStatusTopic p) (out (final (loop btn i s))) =
             payloads (mqttStatusTopic p) (out p) @ [''ON'', ''OFF'']"
proof -
  have eq: "loop btn i s = Inr (loop_action (now2 i) p)"
    using assms(1) by (rule loop_of_loop_pre)
  show ?thesis
    unfolding eq flash_commit [OF assms(2,3)]
    by (auto simp add: final_def payloads_append)
qed

theorem flash_pulse_ends_off_witness:
  "state (final (loop False (msg_tick 8000 [(''devices/relay/action'', ''FLASH'')])
                   (setup_prog demo_cfg))) = LOW
   \<and> payloads ''devices/relay/status''
        (out (final (loop False (msg_tick 8000 [(''devices/relay/action'', ''FLASH'')])
                       (setup_prog demo_cfg)))) = [''ON'', ''OFF'']"
proof -
  have pre: "loop_pre False (msg_tick 8000 [(''devices/relay/action'', ''FLASH'')])
               (setup_prog demo_cfg) = Inr ((setup_prog demo_cfg)\<lparr>needAction := FLASH_ACTION\<rparr>)"
    by (simp add: sketch_defs demo_defs)
  have pending: "needAction ((setup_prog demo_cfg)\<lparr>needAction := FLASH_ACTION\<rparr>) = FLASH_ACTION"
    by simp
  have window: "ACTION_FREQ_LIMIT
                  < now2 (msg_tick 8000 [(''devices/relay/action'', ''FLASH'')])
                    - lastAction ((setup_prog demo_cfg)\<lparr>needAction := FLASH_ACTION\<rparr>)"
    by (simp add: demo_defs)
  from flash_pulse_ends_off [OF pre pending window]
  show ?thesis
    by (elim conjE) (simp add: demo_defs final_def)
qed

text \<open>
  C1 as stated fails when the relay is on before the pulse: after an \<open>ON\<close> has been
  committed (state ON), a committed \<open>FLASH\<close> leaves the relay OFF, and the last
  report says \<open>OFF\<close>.
\<close>

theorem flash_pulse_from_on_counterexample:
  "state (final (run False [msg_tick 8000 [(''devices/relay/action'', ''ON'')]]
                   (setup_prog demo_cfg))) = HIGH
   \<and> state (final (run False [msg_tick 8000 [(''devices/relay/action'', ''ON'')],
                                msg_tick 16000 [(''devices/relay/action'', ''FLASH'')]]
                       (setup_prog demo_cfg))) = LOW
   \<and> payloads ''devices/relay/status''
        (out (final (run False [msg_tick 8000 [(''devices/relay/action'', ''ON'')],
                                 msg_tick 16000 [(''devices/relay/action'', ''FLASH'')]]
                        (setup_prog demo_cfg)))) = [''ON'', ''ON'', ''OFF'']"
  by (simp add: sketch_defs demo_defs)

text \<open>
  C5, as the sketch has it: on a pass through \<open>loop()\<close> that reaches the commit
  step with a pending action, the action is committed if and only if
  \<open>now - lastAction\<close>, taken in 32-bit unsigned arithmetic, is strictly greater than
  \<open>ACTION_FREQ_LIMIT\<close> (7000 ms). A commit clears the slot, stores \<open>now\<close> in
  \<open>lastAction\<close>, sets the relay state to the target (OFF after a flash) and
  publishes; otherwise the pass leaves the state, and with it the pending action, as
  it is.
\<close>

theorem commit_iff_window_open:
  assumes "reachable s"
    and "loop_pre btn i s = Inr p"
    and "needAction p \<noteq> NO_ACTION"
  shows "\<exists>s'. loop btn i s = Inr s'
           \<and> (needAction s' = NO_ACTION) = (ACTION_FREQ_LIMIT < now2 i - lastAction p)
           \<and> (if ACTION_FREQ_LIMIT < now2 i - lastAction p
               then lastAction s' = now2 i
                    \<and> state s' = (if needAction p = FLASH_ACTION then LOW else needAction p)
                    \<and> payloads (mqttStatusTopic p) (out s') =
                        payloads (mqttStatusTopic p) (out p) @
                          (if needAction p = FLASH_ACTION then [''ON'', ''OFF'']
                           else if needAction p = HIGH then [''ON''] else [''OFF''])
               else s' = p)"
proof -
  have eq: "loop btn i s = Inr (loop_action (now2 i) p)"
    using assms(2) by (rule loop_of_loop_pre)
  have "prog_inv p"
    using assms(1,2) by (rule inv_loop_pre [OF reachable_inv])
  with assms(3) consider
      (flash) "needAction p = FLASH_ACTION"
    | (target) "needAction p = LOW \<or> needAction p = HIGH"
    by (auto simp add: prog_inv_def)
  then show ?thesis
  proof cases
    case flash
    show ?thesis
    proof (cases "ACTION_FREQ_LIMIT < now2 i - lastAction p")
      case True
      show ?thesis
        unfolding eq flash_commit [OF flash True]
        using flash True by (simp add: payloads_append)
    next
      case False
      show ?thesis
        unfolding eq no_commit [OF False]
        using flash False by simp
    qed
  next
    case target
    show ?thesis
    proof (cases "ACTION_FREQ_LIMIT < now2 i - lastAction p")
      case True
      show ?thesis
        unfolding eq set_commit [OF target True]
        using target True by (auto simp add: payloads_append)
    next
      case False
      show ?thesis
        unfolding eq no_commit [OF False]
        using assms(3) False by simp
    qed
  qed
qed

theorem commit_iff_window_open_witness:
  "loop False (msg_tick 7001 [(''devices/relay/action'', ''ON'')]) (setup_prog demo_cfg) =
     Inr ((setup_prog demo_cfg)
            \<lparr>state := HIGH, lastAction := 7001,
             out := [DigitalWrite HIGH, Blink 5000 95,
                     Publish ''devices/relay/status'' ''ON'' True 1]\<rparr>)"
proof -
  have pre: "loop_pre False (msg_tick 7001 [(''devices/relay/action'', ''ON'')])
               (setup_prog demo_cfg) = Inr ((setup_prog demo_cfg)\<lparr>needAction := HIGH\<rparr>)"
    by (simp add: sketch_defs demo_defs)
  have pending: "needAction ((setup_prog demo_cfg)\<lparr>needAction := HIGH\<rparr>) \<noteq> NO_ACTION"
    by simp
  from commit_iff_window_open [OF reachable.boot pre pending]
  show ?thesis
    by (simp add: sketch_defs demo_defs)
qed

text \<open>
  C5 as stated fails on the boundary: with \<open>now - lastAction\<close> exactly 7000 the
  interval of the claim has elapsed, yet the pending \<open>ON\<close> is held, the relay stays
  off and nothing is published.
\<close>

theorem commit_at_boundary_counterexample:
  "ACTION_FREQ_LIMIT
     \<le> now2 (msg_tick 7000 [(''devices/relay/action'', ''ON'')]) - lastAction (setup_prog demo_cfg)
   \<and> loop False (msg_tick 7000 [(''devices/relay/action'', ''ON'')]) (setup_prog demo_cfg)
       = Inr ((setup_prog demo_cfg)\<lparr>needAction := HIGH\<rparr>)
   \<and> state (setup_prog demo_cfg) = LOW
   \<and> out (setup_prog demo_cfg) = []"
  by (simp add: sketch_defs demo_defs)

subsection \<open>What is published on the status topic\<close>

lemma deliver_frame:
  "state (deliver ms s) = state s
   \<and> lastAction (deliver ms s) = lastAction s
   \<and> lastMqttConnectionAttempt (deliver ms s) = lastMqttConnectionAttempt s
   \<and> needMqttConnect (deliver ms s) = needMqttConnect s
   \<and> needReset (deliver ms s) = needReset s
   \<and> flashDuration (deliver ms s) = flashDuration s
   \<and> mqttActionTopic (deliver ms s) = mqttActionTopic s
   \<and> mqttStatusTopic (deliver ms s) = mqttStatusTopic s
   \<and> mqttRetain (deliver ms s) = mqttRetain s
   \<and> mqttQoS (deliver ms s) = mqttQoS s"
  by (induction ms s rule: deliver.induct)
     (simp_all add: mqttMessageReceived_def report_def emit_def Let_def)

lemma demo_hello:
  "hello ''192.168.1.50'' 1000 1 True = ''HELLO ip=192.168.1.50 flash=1000 QoS=1 retain=true''"
  by (simp add: hello_def show_int_def show_nat.simps digit_char_def STRING_LEN_def)

lemma loop_connect_success:
  assumes "needMqttConnect s \<or> (online i \<and> \<not> connected i)"
    and "MQTT_CONNECT_FREQ_LIMIT < now1 i - lastMqttConnectionAttempt s"
    and "connectOk i"
  shows "loop_connect i s =
           s\<lparr>lastMqttConnectionAttempt := now1 i, needMqttConnect := False,
              out := out s @
                [ConnectAttempt (now1 i), MqttConnect True, Subscribe (mqttActionTopic s),
                 Publish (mqttStatusTopic s)
                   (hello (localIP i) (flashDuration s) (mqttQoS s) (mqttRetain s)) False 0,
                 Publish (mqttStatusTopic s) (if state s = HIGH then ''ON'' else ''OFF'')
                   (mqttRetain s) (mqttQoS s)]\<rparr>"
  using assms by (simp add: loop_connect_def connectMqtt_def report_def emit_def Let_def)

lemma loop_action_out: "\<exists>rest. out (loop_action now p) = out p @ rest"
  by (simp add: loop_action_def setState_def report_def emit_def Let_def)

lemma loop_button_out: "out (loop_button btn i s) = out s"
  by (simp add: loop_button_def)

lemma loop_out_after_connect:
  "\<exists>rest. out (final (loop btn i s)) =
             out (loop_connect i (deliver (messages i) (doLoop i s))) @ rest"
proof (cases "needReset (loop_connect i (deliver (messages i) (doLoop i s)))")
  case True
  then show ?thesis
    by (simp add: loop_def loop_pre_def final_def emit_def Let_def)
next
  case False
  then have "final (loop btn i s) =
      loop_action (now2 i) (loop_button btn i (loop_connect i (deliver (messages i) (doLoop i s))))"
    by (simp add: loop_def loop_pre_def final_def Let_def)
  then show ?thesis
    using loop_action_out
            [of "now2 i" "loop_button btn i (loop_connect i (deliver (messages i) (doLoop i s)))"]
    by (simp add: loop_button_out)
qed

text \<open>
  C2, as the sketch has it: on a pass through \<open>loop()\<close> whose reconnect branch runs
  and whose connect succeeds, the sketch subscribes and at once publishes exactly two
  messages on the status topic, the greeting and then one report of the relay state.
  Nothing about \<open>lastAction\<close> or the second clock reading is assumed, so the debounce
  window plays no part, and everything else the pass emits (the commit of a pending
  action included) comes after these events in the trace.
\<close>

theorem connect_publishes_greeting_and_status:
  assumes "s2 = deliver (messages i) (doLoop i s)"
    and "needMqttConnect s2 \<or> (online i \<and> \<not> connected i)"
    and "MQTT_CONNECT_FREQ_LIMIT < now1 i - lastMqttConnectionAttempt s2"
    and "connectOk i"
  shows "out (loop_connect i s2) =
           out s2 @
             [ConnectAttempt (now1 i), MqttConnect True, Subscribe (mqttActionTopic s2),
              Publish (mqttStatusTopic s2)
                (hello (localIP i) (flashDuration s2) (mqttQoS s2) (mqttRetain s2)) False 0,
              Publish (mqttStatusTopic s2) (if state s2 = HIGH then ''ON'' else ''OFF'')
                (mqttRetain s2) (mqttQoS s2)]
         \<and> payloads (mqttStatusTopic s2) (out (loop_connect i s2)) =
             payloads (mqttStatusTopic s2) (out s2) @
               [hello (localIP i) (flashDuration s2) (mqttQoS s2) (mqttRetain s2),
                if state s2 = HIGH then ''ON'' else ''OFF'']
         \<and> (\<exists>rest. out (final (loop btn i s)) = out (loop_connect i s2) @ rest)"
proof -
  note eq = loop_connect_success [OF assms(2,3,4)]
  have "\<exists>rest. out (final (loop btn i s)) = out (loop_connect i s2) @ rest"
    unfolding assms(1) by (rule loop_out_after_connect)
  then show ?thesis
    unfolding eq by (simp add: payloads_append)
qed

theorem connect_publishes_greeting_and_status_witness:
  "payloads ''devices/relay/status''
     (out (loop_connect (conn_tick 3000 True True) (wifiConnected (setup_prog demo_cfg)))) =
   [''HELLO ip=192.168.1.50 flash=1000 QoS=1 retain=true'', ''OFF'']"
proof -
  have s2: "wifiConnected (setup_prog demo_cfg) =
              deliver (messages (conn_tick 3000 True True))
                (doLoop (conn_tick 3000 True True) (setup_prog demo_cfg))"
    by (simp add: doLoop_def conn_tick_def configSaved_def Let_def)
  have need: "needMqttConnect (wifiConnected (setup_prog demo_cfg))
              \<or> (online (conn_tick 3000 True True) \<and> \<not> connected (conn_tick 3000 True True))"
    by (simp add: wifiConnected_def)
  have window: "MQTT_CONNECT_FREQ_LIMIT
                  < now1 (conn_tick 3000 True True)
                    - lastMqttConnectionAttempt (wifiConnected (setup_prog demo_cfg))"
    by (simp add: demo_defs wifiConnected_def)
  have ok: "connectOk (conn_tick 3000 True True)"
    by (simp add: conn_tick_def)
  from connect_publishes_greeting_and_status [OF s2 need window ok, of False]
  show ?thesis
    by (elim conjE)
       (simp add: demo_defs wifiConnected_def demo_hello)
qed

text \<open>
  C2 as stated fails: the first successful connect after boot puts two messages on the
  status topic, not one.
\<close>

theorem connect_publishes_twice_counterexample:
  "payloads ''devices/relay/status''
     (out (final (loop False (conn_tick 3000 True True) (setup_prog demo_cfg)))) =
   [''HELLO ip=192.168.1.50 flash=1000 QoS=1 retain=true'', ''OFF'']
   \<and> length (payloads ''devices/relay/status''
        (out (final (loop False (conn_tick 3000 True True) (setup_prog demo_cfg))))) = 2"
  by (simp add: sketch_defs demo_defs demo_hello)

lemma status_ok_append:
  "status_ok tp st (xs @ ys) = (status_ok tp st xs \<and> status_ok tp (pin_after st xs) ys)"
  by (induction tp st xs rule: status_ok.induct) simp_all

lemma pin_after_append: "pin_after st (xs @ ys) = pin_after (pin_after st xs) ys"
  by (induction st xs rule: pin_after.induct) simp_all

lemma is_hello_hello: "is_hello (hello ip fd qos retain)"
  by (simp add: is_hello_def hello_def STRING_LEN_def)

lemmas trace_simps = trace_ok_def status_ok_append pin_after_append is_hello_hello

lemma trace_ok_setup_prog: "trace_ok (setup_prog c)"
  by (simp add: trace_ok_def setup_prog_def)

lemma trace_ok_wifiConnected: "trace_ok s \<Longrightarrow> trace_ok (wifiConnected s)"
  by (simp add: trace_ok_def wifiConnected_def)

lemma trace_ok_configSaved: "trace_ok s \<Longrightarrow> trace_ok (configSaved s)"
  by (simp add: trace_ok_def configSaved_def)

lemma trace_ok_mqttMessageReceived: "trace_ok s \<Longrightarrow> trace_ok (mqttMessageReceived topic payload s)"
  by (simp add: trace_simps mqttMessageReceived_def report_def emit_def Let_def)

lemma trace_ok_doLoop: "trace_ok s \<Longrightarrow> trace_ok (doLoop i s)"
  by (simp add: doLoop_def Let_def trace_ok_wifiConnected trace_ok_configSaved)

lemma trace_ok_deliver: "trace_ok s \<Longrightarrow> trace_ok (deliver ms s)"
  by (induction ms s rule: deliver.induct) (simp_all add: trace_ok_mqttMessageReceived)

lemma trace_ok_loop_connect: "trace_ok s \<Longrightarrow> trace_ok (loop_connect i s)"
  by (simp add: trace_simps loop_connect_def connectMqtt_def report_def emit_def Let_def)

lemma trace_ok_loop_button: "trace_ok s \<Longrightarrow> trace_ok (loop_button btn i s)"
  by (simp add: trace_ok_def loop_button_def)

lemma trace_ok_setState: "trace_ok s \<Longrightarrow> trace_ok (setState v s)"
  by (simp add: trace_simps setState_def report_def emit_def Let_def)

lemma trace_ok_emit_Delay: "trace_ok s \<Longrightarrow> trace_ok (emit (Delay d) s)"
  by (simp add: trace_simps emit_def)

lemma trace_ok_lastAction: "trace_ok (s\<lparr>lastAction := t\<rparr>) = trace_ok s"
  by (simp add: trace_ok_def)

lemma trace_ok_loop_action: "trace_ok s \<Longrightarrow> trace_ok (loop_action now s)"
  by (simp add: loop_action_def Let_def trace_ok_lastAction trace_ok_setState
        trace_ok_emit_Delay)

lemma trace_ok_loop: "trace_ok s \<Longrightarrow> trace_ok (final (loop btn i s))"
proof -
  assume "trace_ok s"
  then have c: "trace_ok (loop_connect i (deliver (messages i) (doLoop i s)))"
    by (intro trace_ok_loop_connect trace_ok_deliver trace_ok_doLoop)
  show ?thesis
  proof (cases "needReset (loop_connect i (deliver (messages i) (doLoop i s)))")
    case True
    then have "final (loop btn i s) =
        emit Restart (emit (Delay 1000) (loop_connect i (deliver (messages i) (doLoop i s))))"
      by (simp add: loop_def loop_pre_def final_def Let_def)
    with c show ?thesis
      by (simp add: trace_simps emit_def)
  next
    case False
    then have "final (loop btn i s) =
        loop_action (now2 i) (loop_button btn i (loop_connect i (deliver (messages i) (doLoop i s))))"
      by (simp add: loop_def loop_pre_def final_def Let_def)
    with c show ?thesis
      by (simp add: trace_ok_loop_action trace_ok_loop_button)
  qed
qed

lemma trace_ok_loop_pre: "trace_ok s \<Longrightarrow> loop_pre btn i s = Inr p \<Longrightarrow> trace_ok p"
  by (auto simp add: loop_pre_def Let_def trace_ok_loop_button trace_ok_loop_connect
        trace_ok_deliver trace_ok_doLoop split: if_splits)

lemma trace_ok_run: "trace_ok s \<Longrightarrow> trace_ok (final (run btn is s))"
proof (induction "is" arbitrary: s)
  case Nil
  then show ?case by (simp add: final_def)
next
  case (Cons i "is")
  show ?case
  proof (cases "loop btn i s")
    case (Inl r)
    with trace_ok_loop [OF Cons.prems, of btn i] show ?thesis
      by (simp add: final_def)
  next
    case (Inr s')
    with trace_ok_loop [OF Cons.prems, of btn i] have "trace_ok s'"
      by (simp add: final_def)
    then have "trace_ok (final (run btn is s'))"
      by (rule Cons.IH)
    with Inr show ?thesis by simp
  qed
qed

lemma reachable_trace_ok: "reachable s \<Longrightarrow> trace_ok s"
proof (induction rule: reachable.induct)
  case (tick s btn i s')
  with trace_ok_loop [of s btn i] show ?case
    by (simp add: final_def)
qed (auto intro: trace_ok_setup_prog trace_ok_wifiConnected trace_ok_configSaved
       trace_ok_mqttMessageReceived trace_ok_loop_pre)

lemma doLoop_statusTopic: "mqttStatusTopic (doLoop i s) = mqttStatusTopic s"
  by (simp add: doLoop_def wifiConnected_def configSaved_def Let_def)

lemma loop_connect_statusTopic: "mqttStatusTopic (loop_connect i s) = mqttStatusTopic s"
  by (simp add: loop_connect_def connectMqtt_def report_def emit_def Let_def)

lemma loop_button_statusTopic: "mqttStatusTopic (loop_button btn i s) = mqttStatusTopic s"
  by (simp add: loop_button_def)

lemma loop_action_statusTopic: "mqttStatusTopic (loop_action now s) = mqttStatusTopic s"
  by (simp add: loop_action_def setState_def report_def emit_def Let_def)

lemma loop_statusTopic: "mqttStatusTopic (final (loop btn i s)) = mqttStatusTopic s"
proof -
  have c: "mqttStatusTopic (loop_connect i (deliver (messages i) (doLoop i s))) = mqttStatusTopic s"
    using deliver_frame [of "messages i" "doLoop i s"]
    by (simp add: loop_connect_statusTopic doLoop_statusTopic)
  show ?thesis
  proof (cases "needReset (loop_connect i (deliver (messages i) (doLoop i s)))")
    case True
    with c show ?thesis
      by (simp add: loop_def loop_pre_def final_def emit_def Let_def)
  next
    case False
    with c show ?thesis
      by (simp add: loop_def loop_pre_def final_def Let_def loop_action_statusTopic
            loop_button_statusTopic)
  qed
qed

text \<open>
  C3, as the sketch has it: every message published on the status topic is either the
  greeting of \<open>connectMqtt\<close> (a payload that starts with \<open>HELLO ip=\<close>) or has
  payload exactly \<open>ON\<close> or \<open>OFF\<close>, and then the payload names the relay state at
  the moment of the publish. This holds for the trace of every reachable state and for
  the trace of every run from boot, ended by a restart or not; the replayed pin level
  always agrees with the variable \<open>state\<close>.
\<close>

theorem status_payloads_are_greeting_or_state:
  "(reachable s \<longrightarrow>
      status_ok (mqttStatusTopic s) LOW (out s) \<and> pin_after LOW (out s) = state s)
   \<and> status_ok (mqttStatusTopic (setup_prog c)) LOW (out (final (run btn is (setup_prog c))))
   \<and> pin_after LOW (out (final (run btn is (setup_prog c))))
       = state (final (run btn is (setup_prog c)))"
proof -
  have cfg: "mqttStatusTopic (final (run b js t)) = mqttStatusTopic t" for b js t
  proof (induction js arbitrary: t)
    case Nil
    show ?case by (simp add: final_def)
  next
    case (Cons j js)
    have step: "mqttStatusTopic (final (loop b j t)) = mqttStatusTopic t"
      by (rule loop_statusTopic)
    show ?case
    proof (cases "loop b j t")
      case (Inl r)
      with step show ?thesis by (simp add: final_def)
    next
      case (Inr t')
      with step have "mqttStatusTopic t' = mqttStatusTopic t" by (simp add: final_def)
      with Cons.IH [of t'] Inr show ?thesis by simp
    qed
  qed
  have "trace_ok (final (run btn is (setup_prog c)))"
    by (rule trace_ok_run [OF trace_ok_setup_prog])
  then show ?thesis
    using reachable_trace_ok [of s] by (simp add: trace_ok_def cfg)
qed

theorem status_payloads_are_greeting_or_state_witness:
  "status_ok ''devices/relay/status'' LOW
     (out (mqttMessageReceived ''devices/relay/action'' ''REPORT'' (setup_prog demo_cfg)))
   \<and> out (mqttMessageReceived ''devices/relay/action'' ''REPORT'' (setup_prog demo_cfg))
       = [Publish ''devices/relay/status'' ''OFF'' True 1]
   \<and> status_ok ''devices/relay/status'' LOW
       (out (final (run False [msg_tick 8000 [(''devices/relay/action'', ''ON'')],
                               conn_tick 9000 False True] (setup_prog demo_cfg))))"
  using status_payloads_are_greeting_or_state
          [of "mqttMessageReceived ''devices/relay/action'' ''REPORT'' (setup_prog demo_cfg)"
              demo_cfg False
              "[msg_tick 8000 [(''devices/relay/action'', ''ON'')], conn_tick 9000 False True]"]
        reachable.message [OF reachable.boot, of "''devices/relay/action''" "''REPORT''" demo_cfg]
  by (elim conjE)
     (simp add: mqttMessageReceived_def endsWith_def report_def emit_def Let_def demo_defs)

text \<open>
  C3 as stated fails: with the relay on, a reconnect publishes the greeting on the
  status topic, a payload that is neither \<open>ON\<close> nor \<open>OFF\<close>.
\<close>

theorem greeting_on_status_topic_counterexample:
  "payloads ''devices/relay/status''
     (out (final (run False [msg_tick 8000 [(''devices/relay/action'', ''ON'')],
                             conn_tick 9000 False True] (setup_prog demo_cfg)))) =
   [''ON'', ''HELLO ip=192.168.1.50 flash=1000 QoS=1 retain=true'', ''ON'']
   \<and> ''HELLO ip=192.168.1.50 flash=1000 QoS=1 retain=true'' \<noteq> ''ON''
   \<and> ''HELLO ip=192.168.1.50 flash=1000 QoS=1 retain=true'' \<noteq> ''OFF''"
  by (simp add: sketch_defs demo_defs demo_hello)

subsection \<open>The rate limit of the reconnect\<close>

lemma connect_times_append: "connect_times (xs @ ys) = connect_times xs @ connect_times ys"
  by (induction xs rule: connect_times.induct) simp_all

lemma connect_times_filter: "connect_times (filter is_connect es) = connect_times es"
  by (induction es rule: connect_times.induct) simp_all

lemma spaced_snoc:
  "spaced (ts @ [t]) = (spaced ts \<and> (ts = [] \<or> MQTT_CONNECT_FREQ_LIMIT \<le> t - last ts))"
  by (induction ts rule: spaced.induct) auto

lemma conn_frame_refl: "conn_frame s s"
  by (simp add: conn_frame_def)

lemma conn_frame_trans: "conn_frame s t \<Longrightarrow> conn_frame t u \<Longrightarrow> conn_frame s u"
  by (simp add: conn_frame_def)

lemma conn_frame_mqttMessageReceived: "conn_frame s (mqttMessageReceived topic payload s)"
  by (simp add: conn_frame_def mqttMessageReceived_def report_def emit_def Let_def)

lemma conn_frame_doLoop: "conn_frame s (doLoop i s)"
  by (simp add: conn_frame_def doLoop_def wifiConnected_def configSaved_def Let_def)

lemma conn_frame_deliver: "conn_frame s (deliver ms s)"
proof (induction ms s rule: deliver.induct)
  case (1 s)
  show ?case by (simp add: conn_frame_refl)
next
  case (2 topic payload ms s)
  from conn_frame_mqttMessageReceived "2.IH" show ?case
    unfolding deliver.simps by (rule conn_frame_trans)
qed

lemma conn_frame_loop_button: "conn_frame s (loop_button btn i s)"
  by (simp add: conn_frame_def loop_button_def)

lemma conn_frame_loop_action: "conn_frame s (loop_action now s)"
  by (simp add: conn_frame_def loop_action_def setState_def report_def emit_def Let_def)

lemma conn_frame_restart: "conn_frame s (emit Restart (emit (Delay 1000) s))"
  by (simp add: conn_frame_def emit_def)

lemma conn_frame_before_connect: "conn_frame s (deliver (messages i) (doLoop i s))"
  using conn_frame_doLoop conn_frame_deliver by (rule conn_frame_trans)

lemma conn_frame_after_connect:
  "conn_frame (loop_connect i (deliver (messages i) (doLoop i s))) (final (loop btn i s))"
proof (cases "needReset (loop_connect i (deliver (messages i) (doLoop i s)))")
  case True
  then have "final (loop btn i s) =
      emit Restart (emit (Delay 1000) (loop_connect i (deliver (messages i) (doLoop i s))))"
    by (simp add: loop_def loop_pre_def final_def Let_def)
  then show ?thesis
    by (simp add: conn_frame_restart)
next
  case False
  then have "final (loop btn i s) =
      loop_action (now2 i) (loop_button btn i (loop_connect i (deliver (messages i) (doLoop i s))))"
    by (simp add: loop_def loop_pre_def final_def Let_def)
  then show ?thesis
    using conn_frame_trans [OF conn_frame_loop_button conn_frame_loop_action] by simp
qed

lemma attempts_ok_frame: "conn_frame s t \<Longrightarrow> attempts_ok s \<Longrightarrow> attempts_ok t"
proof -
  assume f: "conn_frame s t" and a: "attempts_ok s"
  from f have "connect_times (filter is_connect (out t)) = connect_times (filter is_connect (out s))"
    by (simp add: conn_frame_def)
  then have "connect_times (out t) = connect_times (out s)"
    by (simp add: connect_times_filter)
  with f a show ?thesis
    by (simp add: attempts_ok_def conn_frame_def)
qed

lemma loop_connect_skip:
  assumes "\<not> ((needMqttConnect s \<or> (online i \<and> \<not> connected i))
              \<and> MQTT_CONNECT_FREQ_LIMIT < now1 i - lastMqttConnectionAttempt s)"
  shows "loop_connect i s = s"
  using assms by (auto simp add: loop_connect_def Let_def)

lemma loop_connect_attempt:
  assumes "(needMqttConnect s \<or> (online i \<and> \<not> connected i))
           \<and> MQTT_CONNECT_FREQ_LIMIT < now1 i - lastMqttConnectionAttempt s"
  shows "connect_times (out (loop_connect i s)) = connect_times (out s) @ [now1 i]
         \<and> lastMqttConnectionAttempt (loop_connect i s) = now1 i"
  using assms
  by (simp add: loop_connect_def connectMqtt_def report_def emit_def Let_def connect_times_append)

lemma attempts_ok_loop_connect: "attempts_ok s \<Longrightarrow> attempts_ok (loop_connect i s)"
proof (cases "(needMqttConnect s \<or> (online i \<and> \<not> connected i))
              \<and> MQTT_CONNECT_FREQ_LIMIT < now1 i - lastMqttConnectionAttempt s")
  case False
  assume "attempts_ok s"
  with loop_connect_skip [OF False] show ?thesis by simp
next
  case True
  assume a: "attempts_ok s"
  from True have "MQTT_CONNECT_FREQ_LIMIT \<le> now1 i - lastMqttConnectionAttempt s"
    by (simp add: less_imp_le)
  with a loop_connect_attempt [OF True] show ?thesis
    by (auto simp add: attempts_ok_def spaced_snoc)
qed

lemma attempts_ok_loop: "attempts_ok s \<Longrightarrow> attempts_ok (final (loop btn i s))"
proof -
  assume "attempts_ok s"
  with conn_frame_before_connect have "attempts_ok (deliver (messages i) (doLoop i s))"
    by (rule attempts_ok_frame)
  then have "attempts_ok (loop_connect i (deliver (messages i) (doLoop i s)))"
    by (rule attempts_ok_loop_connect)
  with conn_frame_after_connect show ?thesis
    by (rule attempts_ok_frame)
qed

lemma attempts_ok_run: "attempts_ok s \<Longrightarrow> attempts_ok (final (run btn is s))"
proof (induction "is" arbitrary: s)
  case Nil
  then show ?case by (simp add: final_def)
next
  case (Cons i "is")
  note step = attempts_ok_loop [OF Cons.prems, of btn i]
  show ?case
  proof (cases "loop btn i s")
    case (Inl r)
    with step show ?thesis by (simp add: final_def)
  next
    case (Inr s')
    with step have "attempts_ok s'" by (simp add: final_def)
    then have "attempts_ok (final (run btn is s'))" by (rule Cons.IH)
    with Inr show ?thesis by simp
  qed
qed

lemma attempts_ok_setup_prog: "attempts_ok (setup_prog c)"
  by (simp add: attempts_ok_def setup_prog_def)

text \<open>
  C8: in the trace of every run of \<open>loop()\<close> passes from boot, whatever the
  environment does and whether or not the run ends in a restart, the clock readings of
  any two consecutive connect attempts lie at least \<open>MQTT_CONNECT_FREQ_LIMIT\<close>
  (2000 ms) apart, the difference taken in 32-bit unsigned arithmetic as the sketch
  takes it; and \<open>lastMqttConnectionAttempt\<close> holds the reading of the latest attempt.
\<close>

theorem connect_attempts_are_spaced:
  "spaced (connect_times (out (final (run btn is (setup_prog c)))))
   \<and> (connect_times (out (final (run btn is (setup_prog c)))) = []
        \<or> last (connect_times (out (final (run btn is (setup_prog c)))))
            = lastMqttConnectionAttempt (final (run btn is (setup_prog c))))"
  using attempts_ok_run [OF attempts_ok_setup_prog, of btn "is" c]
  by (simp add: attempts_ok_def)

theorem connect_attempts_are_spaced_witness:
  "connect_times (out (final (run False
      [conn_tick 2001 True False, conn_tick 3000 False False, conn_tick 4001 False False,
       conn_tick 4002 False False] (setup_prog demo_cfg)))) = [2001, 4002]
   \<and> spaced [2001, 4002]"
proof -
  have run: "connect_times (out (final (run False
      [conn_tick 2001 True False, conn_tick 3000 False False, conn_tick 4001 False False,
       conn_tick 4002 False False] (setup_prog demo_cfg)))) = [2001, 4002]"
    by (simp add: sketch_defs demo_defs)
  from connect_attempts_are_spaced [of False
      "[conn_tick 2001 True False, conn_tick 3000 False False, conn_tick 4001 False False,
        conn_tick 4002 False False]" demo_cfg]
  show ?thesis
    unfolding run by simp
qed

lemma quiet_loop:
  assumes "filter is_connect (out s) = []" and "lastMqttConnectionAttempt s = 0"
    and "now1 i \<le> MQTT_CONNECT_FREQ_LIMIT"
  shows "filter is_connect (out (final (loop btn i s))) = []
         \<and> lastMqttConnectionAttempt (final (loop btn i s)) = 0"
proof -
  let ?s2 = "deliver (messages i) (doLoop i s)"
  from conn_frame_before_connect [of s i] assms(1,2)
  have q: "filter is_connect (out ?s2) = []" "lastMqttConnectionAttempt ?s2 = 0"
    by (simp_all add: conn_frame_def)
  from q(2) assms(3) have "\<not> MQTT_CONNECT_FREQ_LIMIT < now1 i - lastMqttConnectionAttempt ?s2"
    by simp
  then have "loop_connect i ?s2 = ?s2"
    by (simp add: loop_connect_skip)
  with conn_frame_after_connect [of i s btn] q show ?thesis
    by (simp add: conn_frame_def)
qed

lemma quiet_run:
  assumes "\<forall>i \<in> set is. now1 i \<le> MQTT_CONNECT_FREQ_LIMIT"
    and "filter is_connect (out s) = []" and "lastMqttConnectionAttempt s = 0"
  shows "filter is_connect (out (final (run btn is s))) = []
         \<and> lastMqttConnectionAttempt (final (run btn is s)) = 0"
  using assms
proof (induction "is" arbitrary: s)
  case Nil
  then show ?case by (simp add: final_def)
next
  case (Cons i "is")
  from Cons.prems have "now1 i \<le> MQTT_CONNECT_FREQ_LIMIT" by simp
  from quiet_loop [OF Cons.prems(2,3) this, of btn]
  have step: "filter is_connect (out (final (loop btn i s))) = []"
    "lastMqttConnectionAttempt (final (loop btn i s)) = 0"
    by simp_all
  show ?case
  proof (cases "loop btn i s")
    case (Inl r)
    with step show ?thesis by (simp add: final_def)
  next
    case (Inr s')
    with step have "filter is_connect (out s') = []" "lastMqttConnectionAttempt s' = 0"
      by (simp_all add: final_def)
    with Cons.IH [of s'] Cons.prems(1) Inr show ?thesis by simp
  qed
qed

text \<open>
  C10: \<open>lastMqttConnectionAttempt\<close> starts at 0, so as long as every pass reads a
  clock value of at most \<open>MQTT_CONNECT_FREQ_LIMIT\<close> (the first 2000 ms after boot),
  the sketch makes no connect attempt: the trace holds no attempt and no call of
  \<open>mqttClient.connect\<close>, and the timestamp is still 0. Nothing is assumed about the
  network state or about \<open>needMqttConnect\<close>, so this holds also when the network is
  online and \<open>wifiConnected\<close> has asked for a connect.
\<close>

theorem no_connect_in_first_interval:
  assumes "\<forall>i \<in> set is. now1 i \<le> MQTT_CONNECT_FREQ_LIMIT"
  shows "filter is_connect (out (final (run btn is (setup_prog c)))) = []
         \<and> connect_times (out (final (run btn is (setup_prog c)))) = []
         \<and> lastMqttConnectionAttempt (final (run btn is (setup_prog c))) = 0"
proof -
  have "filter is_connect (out (setup_prog c)) = []" "lastMqttConnectionAttempt (setup_prog c) = 0"
    by (simp_all add: setup_prog_def)
  from quiet_run [OF assms this]
  have q: "filter is_connect (out (final (run btn is (setup_prog c)))) = []"
    "lastMqttConnectionAttempt (final (run btn is (setup_prog c))) = 0"
    by simp_all
  from q(1) have "connect_times (filter is_connect (out (final (run btn is (setup_prog c))))) = []"
    by simp
  then have "connect_times (out (final (run btn is (setup_prog c)))) = []"
    by (simp add: connect_times_filter)
  with q show ?thesis by simp
qed

theorem no_connect_in_first_interval_witness:
  "needMqttConnect (final (run False [conn_tick 10 True True, conn_tick 2000 False True]
                             (setup_prog demo_cfg)))
   \<and> filter is_connect (out (final (run False [conn_tick 10 True True, conn_tick 2000 False True]
                                       (setup_prog demo_cfg)))) = []
   \<and> connect_times (out (final (run False [conn_tick 2001 False True]
        (final (run False [conn_tick 10 True True, conn_tick 2000 False True]
                  (setup_prog demo_cfg)))))) = [2001]"
proof -
  have early: "\<forall>i \<in> set [conn_tick 10 True True, conn_tick 2000 False True].
                 now1 i \<le> MQTT_CONNECT_FREQ_LIMIT"
    by (simp add: demo_defs)
  have st: "final (run False [conn_tick 10 True True, conn_tick 2000 False True]
                     (setup_prog demo_cfg)) = (setup_prog demo_cfg)\<lparr>needMqttConnect := True\<rparr>"
    by (simp add: sketch_defs demo_defs)
  from no_connect_in_first_interval [OF early, of False demo_cfg]
  show ?thesis
    unfolding st by (simp add: sketch_defs demo_defs demo_hello)
qed

end
